theory Spec2Isabelle
  imports Main "HOL-Library.Word"
begin

unbundle bit_operations_syntax

section \<open>Go values\<close>

text \<open>
  A byte is an 8-bit word and a \<open>uint64\<close> a 64-bit word, so \<open>+\<close> and \<open>-\<close> wrap as in Go.
  A run-time panic is the value \<open>Panic\<close>.
  A list stands for a Go slice whose capacity equals its length, as for every buffer that
  \<open>make\<close> allocates with a length only: the data of a delivered message, a decrypted
  body, a tag. On such a slice the expression \<open>s[lo:hi]\<close> panics exactly when \<open>hi\<close>
  exceeds the length or \<open>lo\<close> exceeds \<open>hi\<close>. The messages that generators return are
  slices with a capacity of their own, see \<open>go_slice\<close> below.
\<close>

type_synonym byte = "8 word"
type_synonym uint64 = "64 word"
type_synonym timestamp = nat

datatype 'a result = Panic | Return 'a

fun and_then :: "'a result \<Rightarrow> ('a \<Rightarrow> 'b result) \<Rightarrow> 'b result" where
  "and_then Panic k = Panic"
| "and_then (Return x) k = k x"

text \<open>The conversion \<open>[]byte("...")\<close> of a string literal.\<close>

definition bytes_of :: "string \<Rightarrow> byte list" where
  "bytes_of s = map of_char s"

text \<open>The slice expression \<open>xs[lo:hi]\<close>; \<open>xs[lo:]\<close> is \<open>slice xs lo (length xs)\<close>.\<close>

definition slice :: "'a list \<Rightarrow> nat \<Rightarrow> nat \<Rightarrow> 'a list result" where
  "slice xs lo hi =
     (if lo \<le> hi \<and> hi \<le> length xs then Return (take (hi - lo) (drop lo xs)) else Panic)"

text \<open>
  The builtin \<open>copy(dst, src)\<close> overwrites the first \<open>min (len dst) (len src)\<close> elements
  of \<open>dst\<close>; the result is \<open>dst\<close> afterwards.
\<close>

definition copy :: "'a list \<Rightarrow> 'a list \<Rightarrow> 'a list" where
  "copy dst src = (let n = min (length dst) (length src) in take n src @ drop n dst)"

text \<open>
  A sub-slice shares its array with the slice it was cut from: \<open>write_slice msg lo hi f\<close>
  is \<open>msg\<close> after a callee \<open>f\<close> has written through \<open>msg[lo:hi]\<close>.
\<close>

definition write_slice ::
  "'a list \<Rightarrow> nat \<Rightarrow> nat \<Rightarrow> ('a list \<Rightarrow> 'a list result) \<Rightarrow> 'a list result" where
  "write_slice msg lo hi f =
     and_then (slice msg lo hi) (\<lambda>window.
     and_then (f window) (\<lambda>window'.
     Return (take lo msg @ window' @ drop hi msg)))"

text \<open>
  A slice in general: its elements, and the elements of its array beyond its length, up to
  its capacity. \<open>make_bytes n\<close> is \<open>make([]byte, n)\<close>, with nothing beyond its length.
\<close>

datatype 'a go_slice = Slice (elements: "'a list") (beyond: "'a list")

definition make_bytes :: "nat \<Rightarrow> byte go_slice" where
  "make_bytes n = Slice (replicate n 0) []"

text \<open>
  A slice expression \<open>s[lo:hi]\<close> on a slice is bounded by the capacity of \<open>s\<close>, not by its
  length: \<open>write_through s lo hi f\<close> is \<open>s\<close> after a callee \<open>f\<close> has written through
  \<open>s[lo:hi]\<close>, and a panic when \<open>hi\<close> exceeds the capacity or \<open>lo\<close> exceeds \<open>hi\<close>. The
  length of \<open>s\<close> stays what it was. With the upper bound left out, as in \<open>s[lo:]\<close>, the
  bound is the length of \<open>s\<close>.
\<close>

definition write_through ::
  "'a go_slice \<Rightarrow> nat \<Rightarrow> nat \<Rightarrow> ('a list \<Rightarrow> 'a list result) \<Rightarrow> 'a go_slice result" where
  "write_through s lo hi f =
     and_then (write_slice (elements s @ beyond s) lo hi f) (\<lambda>array.
     Return (Slice (take (length (elements s)) array) (drop (length (elements s)) array)))"

section \<open>The varints of encoding/binary\<close>

text \<open>
  \<open>binary.PutUvarint(buf, x)\<close> of the Go standard library writes seven bits of \<open>x\<close> per
  byte, low bits first, with the top bit of a byte set when more bytes follow; an index
  beyond the buffer panics. It returns the number of bytes written; the model returns the
  buffer as well.
\<close>

function PutUvarint_loop :: "byte list \<Rightarrow> nat \<Rightarrow> uint64 \<Rightarrow> (byte list \<times> nat) result" where
  "PutUvarint_loop buf i x =
     (if x \<ge> 0x80 then
        (if i < length buf
         then PutUvarint_loop (buf[i := ucast x OR 0x80]) (i + 1) (drop_bit 7 x)
         else Panic)
      else if i < length buf then Return (buf[i := ucast x], i + 1) else Panic)"
  by pat_completeness auto
termination
proof (relation "measure (\<lambda>(buf, i, x). unat x)")
  show "wf (measure (\<lambda>(buf, i, x). unat x))" by simp
next
  fix buf :: "byte list" and i :: nat and x :: uint64
  assume "0x80 \<le> x"
  then have "128 \<le> unat x" by (simp add: word_le_nat_alt)
  then have "unat x div 2 ^ 7 < unat x" by simp
  then show "((buf[i := ucast x OR 0x80], i + 1, drop_bit 7 x), (buf, i, x))
      \<in> measure (\<lambda>(buf, i, x). unat x)"
    by (simp add: drop_bit_eq_div unat_div)
qed

declare PutUvarint_loop.simps [simp del]

definition PutUvarint :: "byte list \<Rightarrow> uint64 \<Rightarrow> (byte list \<times> nat) result" where
  "PutUvarint buf x = PutUvarint_loop buf 0 x"

text \<open>
  \<open>binary.Uvarint(buf)\<close> reads such a number back; the model keeps the value and drops the
  byte count. The value is 0 when the buffer ends before a byte without the top bit, and
  when the number overflows 64 bits.
\<close>

fun Uvarint_loop :: "byte list \<Rightarrow> nat \<Rightarrow> uint64 \<Rightarrow> nat \<Rightarrow> uint64" where
  "Uvarint_loop [] i x s = 0"
| "Uvarint_loop (b # buf) i x s =
     (if b < 0x80 then
        (if i > 9 \<or> (i = 9 \<and> b > 1) then 0 else x OR push_bit s (ucast b))
      else Uvarint_loop buf (i + 1) (x OR push_bit s (ucast (b AND 0x7f))) (s + 7))"

definition Uvarint :: "byte list \<Rightarrow> uint64" where
  "Uvarint buf = Uvarint_loop buf 0 0 0"

section \<open>Configuration\<close>

record configuration =
  Subject :: string
  Total :: uint64
  NATSServerURL :: string
  Timeout :: int
  Scenario :: string
  AESEncryptionKey :: string
  NumBytes :: nat
  Filename :: string

section \<open>Messages\<close>

record metric =
  Job :: string
  Time :: timestamp
  Count :: uint64

text \<open>The field \<open>Data\<close> of a \<open>structMessage\<close> is an \<open>interface{}\<close>: any value of a type \<open>'v\<close>.\<close>

record 'v structMessage =
  Count :: uint64
  Total :: uint64
  Data :: 'v

text \<open>The methods of \<open>rawMessage\<close>; the strings they return are kept as bytes.\<close>

definition rawMessage_messageType :: "byte list \<Rightarrow> byte list result" where
  "rawMessage_messageType raw = slice raw 0 4"

definition rawMessage_format :: "byte list \<Rightarrow> byte list result" where
  "rawMessage_format raw = slice raw 4 8"

definition rawMessage_message :: "byte list \<Rightarrow> byte list result" where
  "rawMessage_message raw = slice raw 8 (length raw)"

text \<open>The methods of \<open>byteMessage\<close>.\<close>

definition byteMessage_count :: "byte list \<Rightarrow> uint64 result" where
  "byteMessage_count bytes = and_then (slice bytes 0 8) (\<lambda>buf. Return (Uvarint buf))"

definition byteMessage_total :: "byte list \<Rightarrow> uint64 result" where
  "byteMessage_total bytes = and_then (slice bytes 8 16) (\<lambda>buf. Return (Uvarint buf))"

definition byteMessage_data :: "byte list \<Rightarrow> byte list result" where
  "byteMessage_data bytes = slice bytes 16 (length bytes)"

text \<open>The interface \<open>message\<close> with its two implementations, and its two methods.\<close>

datatype 'v message = ByteMessage "byte list" | StructMessage "'v structMessage"

fun message_count :: "'v message \<Rightarrow> uint64 result" where
  "message_count (ByteMessage bytes) = byteMessage_count bytes"
| "message_count (StructMessage msg) = Return (structMessage.Count msg)"

fun message_total :: "'v message \<Rightarrow> uint64 result" where
  "message_total (ByteMessage bytes) = byteMessage_total bytes"
| "message_total (StructMessage msg) = Return (structMessage.Total msg)"

section \<open>What the program takes from its libraries\<close>

text \<open>
  The program calls libraries whose code is not its own; a \<open>world\<close> holds what they answer.
  \<^item> \<open>GetConf\<close>: gonfig's loader, the error text or the configuration it has filled in.
  \<^item> \<open>ReadFile\<close>: \<open>ioutil.ReadFile\<close>.
  \<^item> \<open>Marshal\<close> and \<open>Unmarshal\<close>: \<open>encoding/json\<close> on a \<open>structMessage\<close>; \<open>Marshal\<close>
    gives the empty slice when it fails, \<open>Unmarshal\<close> gives \<open>None\<close>.
  \<^item> \<open>Seal\<close> and \<open>Open\<close>: AES-GCM under a key, with a nonce; \<open>Open\<close> gives \<open>None\<close> when
    authentication fails.
  \<^item> \<open>RandRead\<close>: the twelve bytes that \<open>rand.Reader\<close> hands to the call that generates
    the message \<open>(count, total)\<close>, or \<open>None\<close> when the reader fails.
  \<^item> \<open>bigStruct\<close>: the value that \<open>fillBigStruct\<close> builds.
\<close>

record 'v world =
  GetConf :: "string \<Rightarrow> string + configuration"
  ReadFile :: "string \<Rightarrow> string + byte list"
  Marshal :: "'v structMessage \<Rightarrow> byte list"
  Unmarshal :: "byte list \<Rightarrow> 'v structMessage option"
  Seal :: "string \<Rightarrow> byte list \<Rightarrow> byte list \<Rightarrow> byte list"
  Open :: "string \<Rightarrow> byte list \<Rightarrow> byte list \<Rightarrow> byte list option"
  RandRead :: "uint64 \<Rightarrow> uint64 \<Rightarrow> byte list option"
  bigStruct :: 'v

section \<open>Package easycrypt\<close>

text \<open>
  \<open>aes.NewCipher\<close> accepts keys of 16, 24 and 32 bytes and fails on any other length;
  \<open>cipher.NewGCM\<close> does not fail on an AES cipher, and its nonce has 12 bytes.
\<close>

definition NewCipher_ok :: "string \<Rightarrow> bool" where
  "NewCipher_ok key = (length key = 16 \<or> length key = 24 \<or> length key = 32)"

definition NonceSize :: nat where
  "NonceSize = 12"

definition Encrypt :: "'v world \<Rightarrow> byte list option \<Rightarrow> byte list \<Rightarrow> string \<Rightarrow> string + byte list" where
  "Encrypt W rnd bytes key =
     (if \<not> NewCipher_ok key then Inl ''easycrypt: New cipher issue''
      else case rnd of
        None \<Rightarrow> Inl ''easycrypt: Nonce issue''
      | Some nonce \<Rightarrow> Inr (nonce @ Seal W key nonce bytes))"

definition Decrypt :: "'v world \<Rightarrow> byte list \<Rightarrow> string \<Rightarrow> string + byte list" where
  "Decrypt W bytes key =
     (if \<not> NewCipher_ok key then Inl ''easycrypt: New cipher issue''
      else if length bytes < NonceSize then Inl ''easycrypt: Nonce issue''
      else case Open W key (take NonceSize bytes) (drop NonceSize bytes) of
        None \<Rightarrow> Inl ''easycrypt: gcm.Open issue''
      | Some plain \<Rightarrow> Inr plain)"

section \<open>Message generators\<close>

text \<open>
  A generator returns a \<open>rawMessage\<close>, a slice of bytes with its capacity: a wrapper slices
  the message of the generator it wraps, whatever that generator is.
\<close>

type_synonym rawMessageGenerator = "uint64 \<Rightarrow> uint64 \<Rightarrow> byte go_slice result"

definition byteMessageFunc :: "byte list \<Rightarrow> rawMessageGenerator" where
  "byteMessageFunc data count total' =
     (let msg = make_bytes (4 + 4 + 8 + 8 + length data) in
      and_then (write_through msg 8 16 (\<lambda>buf.
                  and_then (PutUvarint buf count) (\<lambda>(buf', n). Return buf'))) (\<lambda>msg.
      and_then (write_through msg 16 24 (\<lambda>buf.
                  and_then (PutUvarint buf total') (\<lambda>(buf', n). Return buf'))) (\<lambda>msg.
      write_through msg 24 (length (elements msg)) (\<lambda>dst. Return (copy dst data)))))"

definition structMessageFunc :: "'v world \<Rightarrow> 'v \<Rightarrow> rawMessageGenerator" where
  "structMessageFunc W v count total' =
     (let myStruct = \<lparr>structMessage.Count = count, structMessage.Total = total', Data = v\<rparr>;
          msgBody = Marshal W myStruct;
          msg = make_bytes (4 + 4 + length msgBody)
      in write_through msg 8 (length (elements msg)) (\<lambda>dst. Return (copy dst msgBody)))"

definition encryptedMessageFunc ::
  "'v world \<Rightarrow> rawMessageGenerator \<Rightarrow> string \<Rightarrow> rawMessageGenerator" where
  "encryptedMessageFunc W generateMessage key count total' =
     and_then (generateMessage count total') (\<lambda>msg.
     and_then (slice (elements msg) 8 (length (elements msg))) (\<lambda>body.
     let encryptedBody = (case Encrypt W (RandRead W count total') body key of
                            Inl err \<Rightarrow> []
                          | Inr sealed \<Rightarrow> sealed);
         encryptedMessage = make_bytes (8 + length encryptedBody)
     in write_through encryptedMessage 8 (length (elements encryptedMessage))
          (\<lambda>dst. Return (copy dst encryptedBody))))"

definition rawMessageFunc ::
  "byte list \<Rightarrow> byte list \<Rightarrow> rawMessageGenerator \<Rightarrow> rawMessageGenerator" where
  "rawMessageFunc msgType format generateMessage count total' =
     and_then (generateMessage count total') (\<lambda>msg.
     and_then (write_through msg 0 4 (\<lambda>dst. Return (copy dst msgType))) (\<lambda>msg.
     and_then (write_through msg 4 8 (\<lambda>dst. Return (copy dst format))) (\<lambda>msg.
     Return msg)))"

section \<open>Start of the process\<close>

definition readConfig :: "'v world \<Rightarrow> string \<Rightarrow> string + configuration" where
  "readConfig W fileName =
     (case GetConf W fileName of
        Inl err \<Rightarrow> Inl (''config: gonfig.getconf issue: '' @ err)
      | Inr config \<Rightarrow>
          if length (AESEncryptionKey config) \<noteq> 32
          then Inl ''config: len(config.AESEncryptionKey) != 32''
          else Inr (config
                 \<lparr>Subject := (if Subject config = [] then ''speedtestnats'' else Subject config),
                  NATSServerURL := (if NATSServerURL config = [] then ''nats://127.0.0.1:4222''
                                    else NATSServerURL config)\<rparr>))"

text \<open>
  \<open>main\<close> up to its services: it returns after a fatal log line (\<open>Exits\<close>), or goes on to
  the services with the configuration and the generator of the scenario, which is \<open>nil\<close>
  (\<open>None\<close>) for a scenario that the switch does not know.
\<close>

datatype started = Exits string | Serves configuration "rawMessageGenerator option"

definition main_start :: "'v world \<Rightarrow> string \<Rightarrow> started" where
  "main_start W configFile =
     (case readConfig W configFile of
        Inl err \<Rightarrow> Exits (''readConfig issue err='' @ err)
      | Inr config \<Rightarrow>
          if Scenario config = ''json'' then
            Serves config (Some (rawMessageFunc (bytes_of ''json'') (bytes_of ''byte'')
              (structMessageFunc W (bigStruct W))))
          else if Scenario config = ''json.encrypted'' then
            Serves config (Some (rawMessageFunc (bytes_of ''json'') (bytes_of ''encr'')
              (encryptedMessageFunc W (structMessageFunc W (bigStruct W))
                 (AESEncryptionKey config))))
          else if Scenario config = ''emptybytes'' then
            Serves config (Some (rawMessageFunc (bytes_of ''byte'') (bytes_of ''byte'')
              (byteMessageFunc (replicate (NumBytes config) 0))))
          else if Scenario config = ''file'' then
            (case ReadFile W (Filename config) of
               Inl err \<Rightarrow> Exits (''Unable to read file err='' @ err)
             | Inr data \<Rightarrow>
                 Serves config (Some (rawMessageFunc (bytes_of ''byte'') (bytes_of ''byte'')
                   (byteMessageFunc data))))
          else if Scenario config = ''file.encrypted'' then
            (case ReadFile W (Filename config) of
               Inl err \<Rightarrow> Exits (''Unable to read file err='' @ err)
             | Inr data \<Rightarrow>
                 Serves config (Some (rawMessageFunc (bytes_of ''byte'') (bytes_of ''encr'')
                   (encryptedMessageFunc W (byteMessageFunc data) (AESEncryptionKey config)))))
          else Serves config None)"

section \<open>The master: publishing\<close>

text \<open>
  The goroutine that publishes, run to its end. Its trace has one \<open>Generated\<close> event for
  each call of the generator and one \<open>Published\<close> event for each \<open>nc.Publish\<close>, with the
  bytes \<open>[]byte(msg)\<close>. Calling a \<open>nil\<close> generator panics, and a panic ends the trace.
\<close>

datatype event = Generated uint64 uint64 | Published string "byte list"

datatype outcome = Returned | Panicked

definition call_generator :: "rawMessageGenerator option \<Rightarrow> rawMessageGenerator" where
  "call_generator g count total' = (case g of None \<Rightarrow> Panic | Some f \<Rightarrow> f count total')"

function publish_loop ::
  "rawMessageGenerator option \<Rightarrow> uint64 \<Rightarrow> string \<Rightarrow> uint64 \<Rightarrow> event list \<times> outcome" where
  "publish_loop generateMessage Total' subject count =
     (if count < Total' then
        (case call_generator generateMessage count Total' of
           Panic \<Rightarrow> ([Generated count Total'], Panicked)
         | Return msg \<Rightarrow>
             (let (events, out) = publish_loop generateMessage Total' subject (count + 1)
              in (Generated count Total' # Published subject (elements msg) # events, out)))
      else ([], Returned))"
  by pat_completeness auto
termination
proof (relation "measure (\<lambda>(g, Total', subject, count). unat Total' - unat count)")
  show "wf (measure (\<lambda>(g, Total', subject, count). unat Total' - unat count))" by simp
next
  fix generateMessage :: "rawMessageGenerator option" and Total' count :: uint64
    and subject :: string
  assume "count < Total'"
  then have "unat count < unat Total'" by (simp add: word_less_nat_alt)
  moreover have "unat Total' < 2 ^ 64"
    using unsigned_less [of Total', where ?'a = nat] by simp
  ultimately have "unat (count + 1) = unat count + 1"
    by (simp add: unat_word_ariths)
  with \<open>unat count < unat Total'\<close> show "((generateMessage, Total', subject, count + 1),
      (generateMessage, Total', subject, count))
      \<in> measure (\<lambda>(g, Total', subject, count). unat Total' - unat count)"
    by simp
qed

declare publish_loop.simps [simp del]

definition master_publish :: "configuration \<Rightarrow> rawMessageGenerator option \<Rightarrow> event list \<times> outcome" where
  "master_publish config generateMessage =
     publish_loop generateMessage (configuration.Total config) (Subject config @ ''.data'') 0"

text \<open>
  \<open>main\<close> as the master, as far as the model goes: the events of the publishing goroutine,
  and none when \<open>main\<close> has returned before its services.
\<close>

definition master :: "'v world \<Rightarrow> string \<Rightarrow> event list" where
  "master W configFile =
     (case main_start W configFile of
        Exits line \<Rightarrow> []
      | Serves config generateMessage \<Rightarrow> fst (master_publish config generateMessage))"

section \<open>The slave: the handler of the data subject\<close>

text \<open>
  A statement of the handler panics, returns from the handler, or goes on with a value.
\<close>

datatype 'a step = Panicking | Returning | Continue 'a

fun step_of :: "'a result \<Rightarrow> 'a step" where
  "step_of Panic = Panicking"
| "step_of (Return x) = Continue x"

fun then_step :: "'a step \<Rightarrow> ('a \<Rightarrow> 'b step) \<Rightarrow> 'b step" where
  "then_step Panicking k = Panicking"
| "then_step Returning k = Returning"
| "then_step (Continue x) k = k x"

text \<open>
  The message body and the switch on the format: \<open>"encr"\<close> decrypts and returns from the
  handler when that fails, \<open>"byte"\<close> does nothing, and there is no default case.
\<close>

definition message_body :: "'v world \<Rightarrow> configuration \<Rightarrow> byte list \<Rightarrow> byte list step" where
  "message_body W config data =
     then_step (step_of (rawMessage_message data)) (\<lambda>msgBytes.
     then_step (step_of (rawMessage_format data)) (\<lambda>fmt.
       if fmt = bytes_of ''encr'' then
         (case Decrypt W msgBytes (AESEncryptionKey config) of
            Inl err \<Rightarrow> Returning
          | Inr plain \<Rightarrow> Continue plain)
       else if fmt = bytes_of ''byte'' then Continue msgBytes
       else Continue msgBytes))"

text \<open>The switch on the message type, with its default case.\<close>

definition received_message :: "'v world \<Rightarrow> byte list \<Rightarrow> byte list \<Rightarrow> 'v message step" where
  "received_message W data msgBytes =
     then_step (step_of (rawMessage_messageType data)) (\<lambda>msgType.
       if msgType = bytes_of ''byte'' then Continue (ByteMessage msgBytes)
       else if msgType = bytes_of ''json'' then
         (case Unmarshal W msgBytes of
            None \<Rightarrow> Returning
          | Some tmpStruct \<Rightarrow> Continue (StructMessage tmpStruct))
       else Continue (ByteMessage msgBytes))"

definition decode :: "'v world \<Rightarrow> configuration \<Rightarrow> byte list \<Rightarrow> 'v message step" where
  "decode W config data = then_step (message_body W config data) (received_message W data)"

text \<open>
  The body of the handler, from the counter before the invocation to the counter at the
  end of the body and the metrics published on the metric subject (a metric stands for its
  JSON encoding). \<open>now\<close> is the clock at the invocation. Every panic and every early return
  of the body comes before the counter is written, and log lines are left out.
\<close>

definition handler_body ::
  "'v world \<Rightarrow> configuration \<Rightarrow> timestamp \<Rightarrow> byte list \<Rightarrow> uint64 \<Rightarrow>
     (uint64 \<times> (string \<times> metric) list) step" where
  "handler_body W config now data receivedCounter =
     then_step (decode W config data) (\<lambda>receivedMessage.
     then_step (step_of (message_total receivedMessage)) (\<lambda>t.
       if t = 0 then Returning
       else
     then_step (step_of (message_count receivedMessage)) (\<lambda>c.
       let receivedCounter = (if c = 0 then 0 else receivedCounter) in
       if c = t - 1 \<and> receivedCounter = t - 1
       then Continue (receivedCounter,
              [(Subject config @ ''.metric'',
                \<lparr>Job = ''received'', Time = now, metric.Count = t\<rparr>)])
       else Continue (receivedCounter, []))))"

text \<open>
  An invocation of the handler. The deferred \<open>receivedCounter++\<close> runs when the body is
  left, on every path, a panic included; a panic then goes on to end the process.
\<close>

record handled =
  outcome :: outcome
  counter :: uint64
  published :: "(string \<times> metric) list"

definition handler ::
  "'v world \<Rightarrow> configuration \<Rightarrow> timestamp \<Rightarrow> byte list \<Rightarrow> uint64 \<Rightarrow> handled" where
  "handler W config now data receivedCounter =
     (case handler_body W config now data receivedCounter of
        Panicking \<Rightarrow>
          \<lparr>outcome = Panicked, counter = receivedCounter + 1, published = []\<rparr>
      | Returning \<Rightarrow>
          \<lparr>outcome = Returned, counter = receivedCounter + 1, published = []\<rparr>
      | Continue (receivedCounter', metrics) \<Rightarrow>
          \<lparr>outcome = Returned, counter = receivedCounter' + 1, published = metrics\<rparr>)"

text \<open>
  The subscription delivers messages one after the other, each with the clock at its
  delivery. \<open>deliver\<close> runs the handler on each of them, from a value of the counter, and
  gives what each invocation published; it stops at a panic.
\<close>

record delivered =
  ending :: outcome
  final_counter :: uint64
  metrics :: "(string \<times> metric) list list"

fun deliver ::
  "'v world \<Rightarrow> configuration \<Rightarrow> (timestamp \<times> byte list) list \<Rightarrow> uint64 \<Rightarrow> delivered" where
  "deliver W config [] rc = \<lparr>ending = Returned, final_counter = rc, metrics = []\<rparr>"
| "deliver W config ((now, data) # rest) rc =
     (let h = handler W config now data rc in
      case outcome h of
        Panicked \<Rightarrow> \<lparr>ending = Panicked, final_counter = counter h, metrics = [published h]\<rparr>
      | Returned \<Rightarrow>
          (let d = deliver W config rest (counter h)
           in d\<lparr>metrics := published h # metrics d\<rparr>))"

text \<open>What the handler publishes when a job is complete.\<close>

definition received_metric :: "configuration \<Rightarrow> timestamp \<Rightarrow> uint64 \<Rightarrow> string \<times> metric" where
  "received_metric config now t =
     (Subject config @ ''.metric'', \<lparr>Job = ''received'', Time = now, metric.Count = t\<rparr>)"

section \<open>Concrete inputs\<close>

text \<open>
  A world without files, whose JSON decoder and whose AEAD reject everything, a
  configuration, and plain byte messages with a count and a total below 128, as
  \<open>byteMessageFunc []\<close> under \<open>rawMessageFunc "byte" "byte"\<close> makes them.
\<close>

definition idle_world :: "unit world" where
  "idle_world =
     \<lparr>GetConf = (\<lambda>f. Inl ''no such file''), ReadFile = (\<lambda>f. Inl ''no such file''),
      Marshal = (\<lambda>m. []), Unmarshal = (\<lambda>b. None),
      Seal = (\<lambda>k n p. p), Open = (\<lambda>k n c. None), RandRead = (\<lambda>c t. None),
      bigStruct = ()\<rparr>"

definition test_config :: configuration where
  "test_config =
     \<lparr>Subject = ''speedtestnats'', Total = 2, NATSServerURL = ''nats://127.0.0.1:4222'',
      Timeout = 0, Scenario = ''emptybytes'',
      AESEncryptionKey = ''DontUseARealKey.ItHasToBe32Bytes'', NumBytes = 0, Filename = []\<rparr>"

definition plain_body :: "byte \<Rightarrow> byte \<Rightarrow> byte list" where
  "plain_body c t = (c # replicate 7 0) @ (t # replicate 7 0)"

definition plain_message :: "byte \<Rightarrow> byte \<Rightarrow> byte list" where
  "plain_message c t = bytes_of ''byte'' @ bytes_of ''byte'' @ plain_body c t"

definition plain_generator :: "rawMessageGenerator" where
  "plain_generator = rawMessageFunc (bytes_of ''byte'') (bytes_of ''byte'') (byteMessageFunc [])"



text \<open>
  The configuration with a total of \<open>2 ^ 56\<close>, and the world whose configuration file holds
  a given configuration.
\<close>

definition large_config :: configuration where
  "large_config = test_config\<lparr>configuration.Total := 2 ^ 56\<rparr>"

definition configured_world :: "configuration \<Rightarrow> unit world" where
  "configured_world config = idle_world\<lparr>GetConf := (\<lambda>f. Inr config)\<rparr>"

section \<open>The handler on one message\<close>

lemma format_Return:
  "rawMessage_format data = Return fmt \<longleftrightarrow> 8 \<le> length data \<and> fmt = take 4 (drop 4 data)"
  by (auto simp: rawMessage_format_def slice_def)

lemma handler_decoded:
  assumes "decode W config data = Continue m"
    and "message_total m = Return t" and "t \<noteq> 0" and "message_count m = Return c"
  shows "handler W config now data rc =
     \<lparr>outcome = Returned, counter = (if c = 0 then 0 else rc) + 1,
      published = (if c = t - 1 \<and> (if c = 0 then 0 else rc) = t - 1
                   then [(Subject config @ ''.metric'',
                          \<lparr>Job = ''received'', Time = now, metric.Count = t\<rparr>)]
                   else [])\<rparr>"
  using assms by (simp add: handler_def handler_body_def Let_def)

lemma handler_short:
  assumes "length data < 8"
  shows "handler W config now data rc =
     \<lparr>outcome = Panicked, counter = rc + 1, published = []\<rparr>"
  using assms
  by (simp add: handler_def handler_body_def decode_def message_body_def
      rawMessage_message_def slice_def)

text \<open>
  C2, as the code has it. A message that decodes to a total of 0 is ignored in that the
  handler returns and publishes nothing, but the deferred increment runs on this path as
  on every other one: the counter goes up by one.
\<close>

theorem total_zero_counted:
  assumes "decode W config data = Continue m" and "message_total m = Return 0"
  shows "handler W config now data rc =
     \<lparr>outcome = Returned, counter = rc + 1, published = []\<rparr>"
  using assms by (simp add: handler_def handler_body_def)

theorem total_zero_counted_witness:
  "decode idle_world test_config (plain_message 7 0) = Continue (ByteMessage (plain_body 7 0))
   \<and> message_total (ByteMessage (plain_body 7 0) :: unit message) = Return 0
   \<and> handler idle_world test_config 9 (plain_message 7 0) 5 =
       \<lparr>outcome = Returned, counter = 6, published = []\<rparr>"
proof -
  have d: "decode idle_world test_config (plain_message 7 0)
      = Continue (ByteMessage (plain_body 7 0))"
    by code_simp
  have t: "message_total (ByteMessage (plain_body 7 0) :: unit message) = Return 0"
    by code_simp
  show ?thesis
    using total_zero_counted [OF d t, of 9 5] d t by simp
qed

text \<open>
  C2 as the specification states it fails: a message with total 0 moves the counter from 5
  to 6, and the job of two messages that completes when delivered alone does not complete
  when such a message is delivered between its two messages.
\<close>

theorem total_zero_counterexample:
  "decode idle_world test_config (plain_message 7 0) = Continue (ByteMessage (plain_body 7 0))
   \<and> message_total (ByteMessage (plain_body 7 0) :: unit message) = Return 0
   \<and> counter (handler idle_world test_config 9 (plain_message 7 0) 5) \<noteq> 5
   \<and> metrics (deliver idle_world test_config
        [(1, plain_message 0 2), (2, plain_message 1 2)] 0)
      = [[], [(''speedtestnats.metric'', \<lparr>Job = ''received'', Time = 2, metric.Count = 2\<rparr>)]]
   \<and> metrics (deliver idle_world test_config
        [(1, plain_message 0 2), (2, plain_message 7 0), (3, plain_message 1 2)] 0)
      = [[], [], []]"
  by code_simp

text \<open>
  C3, as the code has it. On a message with count 0 and a total other than 0 the body sets
  the counter to 0 and the deferred increment runs after it, when the handler returns:
  the counter is 1 after the invocation, whatever it was before.
\<close>

theorem first_message_counter_one:
  assumes "decode W config data = Continue m"
    and "message_total m = Return t" and "t \<noteq> 0" and "message_count m = Return 0"
  shows "outcome (handler W config now data rc) = Returned
       \<and> counter (handler W config now data rc) = 1"
  using handler_decoded [OF assms, of now rc] by simp

theorem first_message_counter_one_witness:
  "decode idle_world test_config (plain_message 0 2) = Continue (ByteMessage (plain_body 0 2))
   \<and> message_total (ByteMessage (plain_body 0 2) :: unit message) = Return 2
   \<and> (2 :: uint64) \<noteq> 0
   \<and> message_count (ByteMessage (plain_body 0 2) :: unit message) = Return 0
   \<and> outcome (handler idle_world test_config 9 (plain_message 0 2) 5) = Returned
   \<and> counter (handler idle_world test_config 9 (plain_message 0 2) 5) = 1"
proof -
  have d: "decode idle_world test_config (plain_message 0 2)
      = Continue (ByteMessage (plain_body 0 2))"
    by code_simp
  have t: "message_total (ByteMessage (plain_body 0 2) :: unit message) = Return 2"
    by code_simp
  have n: "(2 :: uint64) \<noteq> 0"
    by simp
  have c: "message_count (ByteMessage (plain_body 0 2) :: unit message) = Return 0"
    by code_simp
  show ?thesis
    using first_message_counter_one [OF d t n c, of 9 5] d t c by simp
qed

text \<open>
  C3 as the specification states it fails: after the first message of a job of two
  messages the counter is 1, not 0.
\<close>

theorem first_message_counterexample:
  "decode idle_world test_config (plain_message 0 2) = Continue (ByteMessage (plain_body 0 2))
   \<and> message_total (ByteMessage (plain_body 0 2) :: unit message) = Return 2
   \<and> message_count (ByteMessage (plain_body 0 2) :: unit message) = Return 0
   \<and> outcome (handler idle_world test_config 9 (plain_message 0 2) 5) = Returned
   \<and> counter (handler idle_world test_config 9 (plain_message 0 2) 5) \<noteq> 0"
  by code_simp

text \<open>
  C4 fails on the code. On a message of three bytes the slice expression \<open>raw[8:]\<close> of
  the first statement of the handler panics: no error value is returned, the message is
  not discarded and the handler does not return normally. Only the deferred increment
  still runs.
\<close>

theorem short_message_panics:
  "rawMessage_message (bytes_of ''byt'') = Panic
   \<and> rawMessage_format (bytes_of ''byt'') = Panic
   \<and> rawMessage_messageType (bytes_of ''byt'') = Panic
   \<and> handler W config now (bytes_of ''byt'') rc =
       \<lparr>outcome = Panicked, counter = rc + 1, published = []\<rparr>"
proof -
  have "length (bytes_of ''byt'') < 8"
    by (simp add: bytes_of_def)
  then show ?thesis
    by (simp add: handler_short rawMessage_message_def rawMessage_format_def
        rawMessage_messageType_def slice_def bytes_of_def)
qed

text \<open>
  C10. A message whose format is neither \<open>"encr"\<close> nor \<open>"byte"\<close> matches no case of the
  switch: the body that goes on to be decoded is the payload as it came, whatever the
  decryption \<open>op\<close> of the world would answer, and the invocation is the one of the same
  message with the format \<open>"byte"\<close>.
\<close>

theorem unknown_format_as_byte:
  assumes "rawMessage_format data = Return fmt"
    and "fmt \<noteq> bytes_of ''encr''" and "fmt \<noteq> bytes_of ''byte''"
  shows "message_body (W\<lparr>Open := op\<rparr>) config data = Continue (drop 8 data)
       \<and> handler (W\<lparr>Open := op\<rparr>) config now data rc =
           handler W config now (take 4 data @ bytes_of ''byte'' @ drop 8 data) rc"
proof -
  let ?data' = "take 4 data @ bytes_of ''byte'' @ drop 8 data"
  from assms(1) have len: "8 \<le> length data"
    by (simp add: format_Return)
  have body: "message_body (W\<lparr>Open := op\<rparr>) config data = Continue (drop 8 data)"
    using assms len by (simp add: message_body_def rawMessage_message_def slice_def)
  have fmt': "rawMessage_format ?data' = Return (bytes_of ''byte'')"
    using len by (simp add: rawMessage_format_def slice_def bytes_of_def)
  have body': "message_body W config ?data' = Continue (drop 8 data)"
    using len fmt' by (simp add: message_body_def rawMessage_message_def slice_def bytes_of_def)
  have ty: "rawMessage_messageType ?data' = rawMessage_messageType data"
    using len by (simp add: rawMessage_messageType_def slice_def)
  have "received_message (W\<lparr>Open := op\<rparr>) data (drop 8 data)
      = received_message W ?data' (drop 8 data)"
    by (simp add: received_message_def ty cong: if_cong)
  with body body' have "decode (W\<lparr>Open := op\<rparr>) config data = decode W config ?data'"
    by (simp add: decode_def)
  then have "handler_body (W\<lparr>Open := op\<rparr>) config now data rc
      = handler_body W config now ?data' rc"
    by (simp add: handler_body_def)
  then have "handler (W\<lparr>Open := op\<rparr>) config now data rc = handler W config now ?data' rc"
    by (simp add: handler_def)
  with body show ?thesis by simp
qed

theorem unknown_format_as_byte_witness:
  "rawMessage_format (bytes_of ''byte'' @ bytes_of ''zstd'' @ plain_body 0 1)
     = Return (bytes_of ''zstd'')
   \<and> bytes_of ''zstd'' \<noteq> bytes_of ''encr'' \<and> bytes_of ''zstd'' \<noteq> bytes_of ''byte''
   \<and> message_body (idle_world\<lparr>Open := (\<lambda>k n c. Some [])\<rparr>) test_config
        (bytes_of ''byte'' @ bytes_of ''zstd'' @ plain_body 0 1) = Continue (plain_body 0 1)
   \<and> handler (idle_world\<lparr>Open := (\<lambda>k n c. Some [])\<rparr>) test_config 9
        (bytes_of ''byte'' @ bytes_of ''zstd'' @ plain_body 0 1) 5
      = \<lparr>outcome = Returned, counter = 1,
         published = [(''speedtestnats.metric'',
                       \<lparr>Job = ''received'', Time = 9, metric.Count = 1\<rparr>)]\<rparr>"
proof -
  let ?data = "bytes_of ''byte'' @ bytes_of ''zstd'' @ plain_body 0 1"
  have f: "rawMessage_format ?data = Return (bytes_of ''zstd'')"
    by code_simp
  have e: "bytes_of ''zstd'' \<noteq> bytes_of ''encr''"
    by (simp add: bytes_of_def)
  have b: "bytes_of ''zstd'' \<noteq> bytes_of ''byte''"
    by (simp add: bytes_of_def)
  have p: "drop 8 ?data = plain_body 0 1"
    by (simp add: bytes_of_def)
  have h: "handler idle_world test_config 9 (take 4 ?data @ bytes_of ''byte'' @ drop 8 ?data) 5
      = \<lparr>outcome = Returned, counter = 1,
         published = [(''speedtestnats.metric'',
                       \<lparr>Job = ''received'', Time = 9, metric.Count = 1\<rparr>)]\<rparr>"
    by code_simp
  show ?thesis
    using unknown_format_as_byte [OF f e b, where W = idle_world and op = "\<lambda>k n c. Some []"
        and config = test_config and now = 9 and rc = 5]
      f e b p h by simp
qed

section \<open>The generators\<close>






section \<open>The count and the total of a byte message\<close>

text \<open>
  Eight bytes hold a varint of at most 56 bits. For a value below \<open>2 ^ 56\<close>
  \<open>PutUvarint\<close> fills an eight-byte buffer without a panic and \<open>Uvarint\<close> reads the
  value back.
\<close>

lemma bit_0x80: "bit (0x80 :: int) n \<longleftrightarrow> n = 7"
proof -
  have "(0x80 :: int) = 2 ^ 7" by simp
  then show ?thesis by (simp only: bit_exp_iff) auto
qed

lemma low7: "ucast (((ucast (x :: uint64) :: byte) OR 0x80) AND 0x7f) = take_bit 7 x"
proof -
  have m: "(0x7f :: byte) = mask 7" by (simp add: mask_eq_exp_minus_1)
  show ?thesis
    unfolding m
    by (rule bit_word_eqI) (auto simp: bit_simps bit_0x80)
qed

lemma small_byte:
  assumes "(x :: uint64) < 0x80"
  shows "ucast (ucast x :: byte) = x" and "(ucast x :: byte) < 0x80"
proof -
  from assms have u: "unat x < 128" by (simp add: word_less_nat_alt)
  then have b: "unat (ucast x :: byte) = unat x"
    by (simp add: unsigned_ucast_eq unsigned_take_bit_eq take_bit_nat_eq_self)
  then have "unat (ucast (ucast x :: byte) :: uint64) = unat x"
    using u by (simp add: unsigned_ucast_eq unsigned_take_bit_eq take_bit_nat_eq_self)
  then show "ucast (ucast x :: byte) = x"
    by (simp add: word_unat_eq_iff)
  show "(ucast x :: byte) < 0x80"
    using u b by (simp add: word_less_nat_alt)
qed

lemma shrink:
  assumes "unat (x :: uint64) < 2 ^ (7 * Suc k)"
  shows "unat (drop_bit 7 x) < 2 ^ (7 * k)"
proof -
  from assms have "unat x div 2 ^ 7 < 2 ^ (7 * k)"
    by (simp add: less_mult_imp_div_less power_add)
  then show ?thesis
    by (simp add: drop_bit_eq_div unat_div)
qed


lemma high_bit: "\<not> ((ucast (x :: uint64) :: byte) OR 0x80) < 0x80"
proof -
  have "(0x80 :: byte) \<le> 0x80 OR (ucast x :: byte)"
    by (rule le_word_or2)
  then show ?thesis by (simp add: or.commute)
qed

lemma rejoin: "push_bit s (take_bit 7 (x :: uint64)) OR push_bit (s + 7) (drop_bit 7 x) = push_bit s x"
proof (rule bit_word_eqI)
  fix n
  assume "n < LENGTH(64)"
  show "bit (push_bit s (take_bit 7 x) OR push_bit (s + 7) (drop_bit 7 x)) n \<longleftrightarrow> bit (push_bit s x) n"
  proof (cases "n - s < 7")
    case True
    then show ?thesis by (auto simp: bit_simps)
  next
    case False
    then have "7 + (n - (s + 7)) = n - s" and "s + 7 \<le> n" and "s \<le> n" by auto
    with False show ?thesis by (auto simp: bit_simps)
  qed
qed

lemma varint_loop:
  assumes "unat x < 2 ^ (7 * (8 - i))" and "i < 8" and "length buf = 8"
  shows "\<exists>buf' n. PutUvarint_loop buf i x = Return (buf', n) \<and> length buf' = 8
           \<and> take i buf' = take i buf
           \<and> (\<forall>acc. Uvarint_loop (drop i buf') i acc (7 * i) = acc OR push_bit (7 * i) x)"
  using assms
proof (induction buf i x rule: PutUvarint_loop.induct)
  case (1 buf i x)
  show ?case
  proof (cases "x \<ge> 0x80")
    case True
    let ?b = "ucast x OR 0x80 :: byte"
    from True have big: "128 \<le> unat x" by (simp add: word_le_nat_alt)
    have i6: "i < 7"
    proof (rule ccontr)
      assume "\<not> i < 7"
      with "1.prems"(2) have "i = 7" by simp
      with "1.prems"(1) big show False by simp
    qed
    then have suc: "8 - i = Suc (8 - (i + 1))" by simp
    have small: "unat (drop_bit 7 x) < 2 ^ (7 * (8 - (i + 1)))"
      using "1.prems"(1) unfolding suc by (rule shrink)
    have ilen: "i < length buf" using "1.prems" by simp
    from "1.IH" [OF True ilen small] i6 "1.prems"(3)
    obtain buf' n where r: "PutUvarint_loop (buf[i := ?b]) (i + 1) (drop_bit 7 x) = Return (buf', n)"
      and len: "length buf' = 8"
      and pre: "take (i + 1) buf' = take (i + 1) (buf[i := ?b])"
      and dec: "\<And>acc. Uvarint_loop (drop (i + 1) buf') (i + 1) acc (7 * (i + 1))
                  = acc OR push_bit (7 * (i + 1)) (drop_bit 7 x)"
      by auto
    have put: "PutUvarint_loop buf i x = Return (buf', n)"
      using r by (subst PutUvarint_loop.simps) (simp add: True ilen)
    have "take (Suc i) buf' ! i = take (Suc i) (buf[i := ?b]) ! i"
      using pre by simp
    then have at: "buf' ! i = ?b"
      using ilen by simp
    have "take i (take (Suc i) buf') = take i (take (Suc i) (buf[i := ?b]))"
      using pre by simp
    then have pre': "take i buf' = take i buf"
      by (simp add: min_def)
    have cons: "drop i buf' = ?b # drop (i + 1) buf'"
      using len "1.prems"(2) at by (simp add: Cons_nth_drop_Suc [symmetric])
    have "Uvarint_loop (drop i buf') i acc (7 * i) = acc OR push_bit (7 * i) x" for acc
    proof -
      have "Uvarint_loop (drop i buf') i acc (7 * i)
          = Uvarint_loop (drop (i + 1) buf') (i + 1)
              (acc OR push_bit (7 * i) (take_bit 7 x)) (7 * (i + 1))"
        unfolding cons using high_bit [of x] low7 [of x] by (simp add: add.commute)
      also have "\<dots> = acc OR (push_bit (7 * i) (take_bit 7 x)
                          OR push_bit (7 * i + 7) (drop_bit 7 x))"
        using dec [of "acc OR push_bit (7 * i) (take_bit 7 x)"]
        by (simp add: add.commute or.assoc)
      finally show ?thesis by (simp only: rejoin)
    qed
    with put len pre' show ?thesis by blast
  next
    case False
    then have lt: "x < 0x80" by simp
    have ilen: "i < length buf" using "1.prems" by simp
    have put: "PutUvarint_loop buf i x = Return (buf[i := ucast x], i + 1)"
      by (subst PutUvarint_loop.simps) (simp add: False ilen)
    have cons: "drop i (buf[i := ucast x]) = ucast x # drop (i + 1) buf"
      using ilen by (simp add: Cons_nth_drop_Suc [symmetric])
    have "Uvarint_loop (drop i (buf[i := ucast x])) i acc (7 * i) = acc OR push_bit (7 * i) x" for acc
      unfolding cons using small_byte [OF lt] "1.prems"(2) by simp
    with put "1.prems"(3) show ?thesis by simp
  qed
qed

lemma varint_roundtrip:
  assumes "x < 2 ^ 56" and "length buf = 8"
  shows "\<exists>buf' n. PutUvarint buf x = Return (buf', n) \<and> length buf' = 8 \<and> Uvarint buf' = x"
proof -
  from assms(1) have "unat x < 2 ^ (7 * (8 - 0))"
    by (simp add: word_less_nat_alt)
  from varint_loop [OF this _ assms(2)] show ?thesis
    by (auto simp: PutUvarint_def Uvarint_def)
qed

text \<open>
  Below \<open>2 ^ 56\<close> a message of \<open>byteMessageFunc\<close> gives back its count, its total and its
  data.
\<close>

lemma byteMessage_roundtrip:
  assumes "count < 2 ^ 56" and "total' < 2 ^ 56"
  shows "\<exists>msg body. byteMessageFunc data count total' = Return (Slice msg [])
           \<and> rawMessage_message msg = Return body
           \<and> byteMessage_count body = Return count
           \<and> byteMessage_total body = Return total'
           \<and> byteMessage_data body = Return data"
proof -
  let ?n = "length data"
  let ?zeros = "replicate 8 (0 :: byte)"
  let ?put = "\<lambda>x buf. and_then (PutUvarint buf x) (\<lambda>(buf', n). Return buf')"
  obtain c8 nc where c8: "PutUvarint ?zeros count = Return (c8, nc)" "length c8 = 8" "Uvarint c8 = count"
    using varint_roundtrip [OF assms(1), of ?zeros] by auto
  obtain t8 nt where t8: "PutUvarint ?zeros total' = Return (t8, nt)" "length t8 = 8" "Uvarint t8 = total'"
    using varint_roundtrip [OF assms(2), of ?zeros] by auto
  let ?msg1 = "?zeros @ c8 @ replicate (8 + ?n) 0"
  let ?msg2 = "?zeros @ c8 @ t8 @ replicate ?n 0"
  let ?msg3 = "?zeros @ c8 @ t8 @ data"
  have w1: "write_through (make_bytes (4 + 4 + 8 + 8 + ?n)) 8 16 (?put count) = Return (Slice ?msg1 [])"
    using c8(1,2) by (simp add: write_through_def make_bytes_def write_slice_def slice_def)
  have w2: "write_through (Slice ?msg1 []) 16 24 (?put total') = Return (Slice ?msg2 [])"
    using t8(1,2) c8(2) by (simp add: write_through_def write_slice_def slice_def)
  have w3: "write_through (Slice ?msg2 []) 24 (length ?msg2) (\<lambda>dst. Return (copy dst data))
      = Return (Slice ?msg3 [])"
    using c8(2) t8(2) by (simp add: write_through_def write_slice_def slice_def copy_def)
  have gen: "byteMessageFunc data count total' = Return (Slice ?msg3 [])"
    using w1 w2 w3 by (simp add: byteMessageFunc_def Let_def)
  have body: "rawMessage_message ?msg3 = Return (c8 @ t8 @ data)"
    by (simp add: rawMessage_message_def slice_def)
  have "byteMessage_count (c8 @ t8 @ data) = Return count"
    using c8 by (simp add: byteMessage_count_def slice_def)
  moreover have "byteMessage_total (c8 @ t8 @ data) = Return total'"
    using c8 t8 by (simp add: byteMessage_total_def slice_def)
  moreover have "byteMessage_data (c8 @ t8 @ data) = Return data"
    using c8 t8 by (simp add: byteMessage_data_def slice_def)
  ultimately show ?thesis
    using gen body by blast
qed

text \<open>
  C6 fails on the code for a total of \<open>2 ^ 56\<close> (and a count of 0, which is below it): the
  varint of the total needs nine bytes, \<open>PutUvarint\<close> indexes the eight-byte window
  \<open>msg[16:24]\<close> at 8 and the generator panics, whatever the data, so that no message is
  there to be decoded.
\<close>

theorem large_total_panics: "byteMessageFunc data 0 (2 ^ 56) = Panic"
proof -
  let ?n = "length data"
  let ?zeros = "replicate 8 (0 :: byte)"
  let ?put = "\<lambda>x buf. and_then (PutUvarint buf x) (\<lambda>(buf', n). Return buf')"
  let ?msg0 = "make_bytes (4 + 4 + 8 + 8 + ?n)"
  have p0: "PutUvarint ?zeros 0 = Return (?zeros, 1)"
    by code_simp
  have p1: "PutUvarint ?zeros (2 ^ 56) = Panic"
    by code_simp
  have w1: "write_through ?msg0 8 16 (?put 0) = Return ?msg0"
    using p0
    by (simp add: write_through_def make_bytes_def write_slice_def slice_def replicate_add [symmetric])
  have w2: "write_through ?msg0 16 24 (?put (2 ^ 56)) = Panic"
    using p1 by (simp add: write_through_def make_bytes_def write_slice_def slice_def)
  show ?thesis
    using w1 w2 by (simp add: byteMessageFunc_def Let_def)
qed

section \<open>Start and publishing\<close>

lemma unat_succ: "(count :: uint64) < T \<Longrightarrow> unat (count + 1) = unat count + 1"
proof -
  assume "count < T"
  then have "unat count < unat T" by (simp add: word_less_nat_alt)
  moreover have "unat T < 2 ^ 64"
    using unsigned_less [of T, where ?'a = nat] by simp
  ultimately show ?thesis by (simp add: unat_word_ariths)
qed

lemma publish_loop_from:
  assumes "generateMessage = Some g"
    and "\<forall>c. c < T \<longrightarrow> g c T = Return (msg c)"
  shows "publish_loop generateMessage T subject count =
     (concat (map (\<lambda>i. [Generated (of_nat i) T, Published subject (elements (msg (of_nat i)))])
        [unat count..<unat T]), Returned)"
  using assms
proof (induction generateMessage T subject count rule: publish_loop.induct)
  case (1 generateMessage T subject count)
  show ?case
  proof (cases "count < T")
    case True
    then have r: "call_generator generateMessage count T = Return (msg count)"
      using "1.prems" by (simp add: call_generator_def)
    have lt: "unat count < unat T" using True by (simp add: word_less_nat_alt)
    have ih: "publish_loop generateMessage T subject (count + 1) =
       (concat (map (\<lambda>i. [Generated (of_nat i) T, Published subject (elements (msg (of_nat i)))])
          [unat (count + 1)..<unat T]), Returned)"
      using "1.IH" [OF True r] "1.prems" by simp
    have up: "[unat count..<unat T] = unat count # [unat (count + 1)..<unat T]"
      using lt by (simp add: unat_succ [OF True] upt_conv_Cons)
    show ?thesis
      by (subst publish_loop.simps) (simp add: True r ih up)
  next
    case False
    then have "unat T \<le> unat count" by (simp add: word_less_nat_alt)
    with False show ?thesis
      by (subst publish_loop.simps) simp
  qed
qed

text \<open>
  C8. When the key of the loaded configuration does not have 32 bytes, \<open>readConfig\<close>
  returns its error and \<open>main\<close> returns after the fatal log line: no generator is built
  and the master publishes nothing. Conversely, whenever \<open>main\<close> reaches its services the
  key has 32 bytes, and no call of \<open>Encrypt\<close> with it fails on the length of the key.
\<close>

theorem bad_key_exits_at_start:
  "(GetConf W configFile = Inr config \<and> length (AESEncryptionKey config) \<noteq> 32 \<longrightarrow>
      readConfig W configFile = Inl ''config: len(config.AESEncryptionKey) != 32''
    \<and> main_start W configFile =
        Exits ''readConfig issue err=config: len(config.AESEncryptionKey) != 32''
    \<and> master W configFile = [])
   \<and> (main_start W configFile = Serves config' g \<longrightarrow>
        length (AESEncryptionKey config') = 32
      \<and> Encrypt W rnd bytes (AESEncryptionKey config') \<noteq> Inl ''easycrypt: New cipher issue'')"
proof -
  have a: "readConfig W configFile = Inl ''config: len(config.AESEncryptionKey) != 32''"
    if "GetConf W configFile = Inr config" "length (AESEncryptionKey config) \<noteq> 32"
    using that by (simp add: readConfig_def)
  have b: "length (AESEncryptionKey c) = 32" if "readConfig W configFile = Inr c" for c
    using that by (auto simp: readConfig_def split: sum.splits if_splits)
  have c: "readConfig W configFile = Inr config'" if "main_start W configFile = Serves config' g"
    using that by (auto simp: main_start_def split: sum.splits if_splits)
  have d: "Encrypt W rnd bytes key \<noteq> Inl ''easycrypt: New cipher issue''" if "length key = 32" for key
    using that by (simp add: Encrypt_def NewCipher_ok_def split: option.splits)
  show ?thesis
    using a b c d by (auto simp: main_start_def master_def)
qed

theorem bad_key_exits_at_start_witness:
  "GetConf (idle_world\<lparr>GetConf := (\<lambda>f. Inr (test_config\<lparr>AESEncryptionKey := ''ShortKey''\<rparr>))\<rparr>)
       ''config.json'' = Inr (test_config\<lparr>AESEncryptionKey := ''ShortKey''\<rparr>)
   \<and> length (AESEncryptionKey (test_config\<lparr>AESEncryptionKey := ''ShortKey''\<rparr>)) \<noteq> 32
   \<and> main_start (idle_world\<lparr>GetConf := (\<lambda>f. Inr (test_config\<lparr>AESEncryptionKey := ''ShortKey''\<rparr>))\<rparr>)
       ''config.json'' = Exits ''readConfig issue err=config: len(config.AESEncryptionKey) != 32''
   \<and> master (idle_world\<lparr>GetConf := (\<lambda>f. Inr (test_config\<lparr>AESEncryptionKey := ''ShortKey''\<rparr>))\<rparr>)
       ''config.json'' = []
   \<and> main_start (idle_world\<lparr>GetConf := (\<lambda>f. Inr test_config)\<rparr>) ''config.json''
       = Serves test_config (Some (rawMessageFunc (bytes_of ''byte'') (bytes_of ''byte'')
              (byteMessageFunc (replicate (NumBytes test_config) 0))))
   \<and> length (AESEncryptionKey test_config) = 32
   \<and> Encrypt (idle_world\<lparr>GetConf := (\<lambda>f. Inr test_config)\<rparr>) (Some (replicate 12 0)) [1, 2, 3]
        (AESEncryptionKey test_config) \<noteq> Inl ''easycrypt: New cipher issue''"
proof -
  let ?bad = "test_config\<lparr>AESEncryptionKey := ''ShortKey''\<rparr>"
  let ?W1 = "idle_world\<lparr>GetConf := (\<lambda>f. Inr ?bad)\<rparr>"
  let ?W2 = "idle_world\<lparr>GetConf := (\<lambda>f. Inr test_config)\<rparr>"
  let ?g = "Some (rawMessageFunc (bytes_of ''byte'') (bytes_of ''byte'')
              (byteMessageFunc (replicate (NumBytes test_config) 0)))"
  have a: "GetConf ?W1 ''config.json'' = Inr ?bad" by simp
  have b: "length (AESEncryptionKey ?bad) \<noteq> 32" by simp
  have c: "main_start ?W2 ''config.json'' = Serves test_config ?g"
    by (simp add: main_start_def readConfig_def test_config_def)
  show ?thesis
    using bad_key_exits_at_start [of ?W1 "''config.json''" ?bad test_config ?g "Some (replicate 12 0)" "[1, 2, 3]"]
      bad_key_exits_at_start [of ?W2 "''config.json''" ?bad test_config ?g "Some (replicate 12 0)" "[1, 2, 3]"]
      a b c by simp
qed

text \<open>
  C9 fails on the code. With a total of 2 the publishing goroutine calls the generator with
  \<open>(0, 2)\<close> and \<open>(1, 2)\<close> and publishes the two messages, each after the call that made
  it. With the total \<open>2 ^ 56\<close> in the configuration and the scenario \<open>"emptybytes"\<close>,
  \<open>main\<close> goes on to its services with the generator of that scenario, and this generator
  panics in its first call, on the varint of the total: the goroutine makes one call,
  publishes nothing, and the panic ends it.
\<close>

theorem publishing_stops_at_large_total:
  "master_publish test_config (Some plain_generator) =
      ([Generated 0 2, Published ''speedtestnats.data'' (plain_message 0 2),
        Generated 1 2, Published ''speedtestnats.data'' (plain_message 1 2)], Returned)
   \<and> main_start (configured_world large_config) ''config.json''
       = Serves large_config (Some (rawMessageFunc (bytes_of ''byte'') (bytes_of ''byte'')
           (byteMessageFunc (replicate (NumBytes large_config) 0))))
   \<and> master_publish large_config (Some (rawMessageFunc (bytes_of ''byte'') (bytes_of ''byte'')
           (byteMessageFunc (replicate (NumBytes large_config) 0))))
       = ([Generated 0 (2 ^ 56)], Panicked)
   \<and> master (configured_world large_config) ''config.json'' = [Generated 0 (2 ^ 56)]"
proof -
  let ?g = "rawMessageFunc (bytes_of ''byte'') (bytes_of ''byte'')
           (byteMessageFunc (replicate (NumBytes large_config) 0))"
  have small: "master_publish test_config (Some plain_generator) =
      ([Generated 0 2, Published ''speedtestnats.data'' (plain_message 0 2),
        Generated 1 2, Published ''speedtestnats.data'' (plain_message 1 2)], Returned)"
    by code_simp
  have start: "main_start (configured_world large_config) ''config.json''
       = Serves large_config (Some ?g)"
    by (simp add: main_start_def readConfig_def configured_world_def large_config_def
        test_config_def)
  have large: "master_publish large_config (Some ?g) = ([Generated 0 (2 ^ 56)], Panicked)"
    by code_simp
  have "master (configured_world large_config) ''config.json'' = [Generated 0 (2 ^ 56)]"
    by (simp add: master_def start large)
  with small start large show ?thesis by simp
qed

section \<open>Jobs\<close>

lemma unat_of_nat_below:
  fixes T :: uint64
  assumes "k < unat T"
  shows "unat (of_nat k :: uint64) = k"
proof -
  have "unat T < 2 ^ 64"
    using unsigned_less [of T, where ?'a = nat] by simp
  with assms have "k < 2 ^ 64" by simp
  then show ?thesis by (simp add: unat_of_nat)
qed

lemma of_nat_is_zero:
  fixes T :: uint64
  assumes "k < unat T"
  shows "(of_nat k :: uint64) = 0 \<longleftrightarrow> k = 0"
  using unat_of_nat_below [OF assms] by (auto simp: word_unat_eq_iff)

lemma of_nat_is_last:
  fixes T :: uint64
  assumes "k < unat T"
  shows "(of_nat k :: uint64) = T - 1 \<longleftrightarrow> Suc k = unat T"
proof -
  from assms have "T \<noteq> 0" by auto
  then have "unat (T - 1) = unat T - 1" by (simp add: unat_minus_one)
  with assms unat_of_nat_below [OF assms] show ?thesis
    by (auto simp: word_unat_eq_iff)
qed

lemma replicate_pos: "0 < n \<Longrightarrow> replicate n x = x # replicate (n - 1) x"
  by (cases n) simp_all

lemma deliver_rest:
  fixes T :: uint64
  assumes len: "length ds = unat T"
    and dec: "\<forall>i<unat T. \<exists>m. decode W config (snd (ds ! i)) = Continue m
               \<and> message_count m = Return (of_nat i) \<and> message_total m = Return T"
    and k: "0 < k" "k \<le> unat T"
  shows "deliver W config (drop k ds) (of_nat k) =
     \<lparr>ending = Returned, final_counter = T,
      metrics = (if k < unat T
                 then replicate (unat T - 1 - k) [] @ [[received_metric config (fst (last ds)) T]]
                 else [])\<rparr>"
  using k
proof (induction "unat T - k" arbitrary: k)
  case 0
  then have "k = unat T" by simp
  then show ?case using len by simp
next
  case (Suc n)
  then have lt: "k < unat T" by simp
  then have T0: "T \<noteq> 0" by auto
  obtain now data where d: "ds ! k = (now, data)" by (cases "ds ! k")
  from dec lt d obtain m where m: "decode W config data = Continue m"
    "message_count m = Return (of_nat k)" "message_total m = Return T"
    by force
  have nz: "(of_nat k :: uint64) \<noteq> 0"
    using of_nat_is_zero [OF lt] Suc.prems by simp
  have h: "handler W config now data (of_nat k) =
     \<lparr>outcome = Returned, counter = of_nat (Suc k),
      published = (if Suc k = unat T then [received_metric config now T] else [])\<rparr>"
    using handler_decoded [OF m(1) m(3) T0 m(2), of now "of_nat k"] nz of_nat_is_last [OF lt]
    by (simp add: received_metric_def)
  have split: "drop k ds = (now, data) # drop (Suc k) ds"
    using lt len d by (simp add: Cons_nth_drop_Suc [symmetric])
  have ih: "deliver W config (drop (Suc k) ds) (of_nat (Suc k)) =
     \<lparr>ending = Returned, final_counter = T,
      metrics = (if Suc k < unat T
                 then replicate (unat T - 1 - Suc k) [] @ [[received_metric config (fst (last ds)) T]]
                 else [])\<rparr>"
    using Suc.hyps(1) [of "Suc k"] Suc.hyps(2) lt by simp
  show ?case
  proof (cases "Suc k = unat T")
    case True
    have "ds \<noteq> []" using len lt by auto
    moreover have "length ds - 1 = k" using True len by simp
    ultimately have "last ds = ds ! k" by (simp add: last_conv_nth)
    then have "fst (last ds) = now" using d by simp
    with True h ih split lt show ?thesis by simp
  next
    case False
    then have "Suc k < unat T" using lt by simp
    moreover from this have "replicate (unat T - 1 - k) ([] :: (string \<times> metric) list)
        = [] # replicate (unat T - 1 - Suc k) []"
      by (simp add: replicate_pos)
    ultimately show ?thesis using False h ih split lt by simp
  qed
qed

lemma deliver_job:
  fixes T :: uint64
  assumes T0: "T \<noteq> 0"
    and len: "length ds = unat T"
    and dec: "\<forall>i<unat T. \<exists>m. decode W config (snd (ds ! i)) = Continue m
               \<and> message_count m = Return (of_nat i) \<and> message_total m = Return T"
  shows "deliver W config ds 0 =
     \<lparr>ending = Returned, final_counter = T,
      metrics = replicate (unat T - 1) [] @ [[received_metric config (fst (last ds)) T]]\<rparr>"
proof -
  from T0 have pos: "0 < unat T" by (simp add: unat_gt_0)
  then obtain d rest where ds: "ds = d # rest" using len by (cases ds) auto
  obtain now data where d: "d = (now, data)" by (cases d)
  from dec pos ds d obtain m where m: "decode W config data = Continue m"
    "message_count m = Return 0" "message_total m = Return T"
    by force
  have h: "handler W config now data 0 =
     \<lparr>outcome = Returned, counter = 1,
      published = (if unat T = 1 then [received_metric config now T] else [])\<rparr>"
    using handler_decoded [OF m(1) m(3) T0 m(2), of now 0] of_nat_is_last [OF pos]
    by (simp add: received_metric_def)
  have rest: "deliver W config rest 1 =
     \<lparr>ending = Returned, final_counter = T,
      metrics = (if 1 < unat T
                 then replicate (unat T - 1 - 1) [] @ [[received_metric config (fst (last ds)) T]]
                 else [])\<rparr>"
    using deliver_rest [OF len dec, of 1] pos ds by simp
  show ?thesis
  proof (cases "unat T = 1")
    case True
    then have "rest = []" using len ds by simp
    with True h rest ds d show ?thesis by simp
  next
    case False
    then have "1 < unat T" using pos by simp
    moreover from this have "replicate (unat T - 1) ([] :: (string \<times> metric) list)
        = [] # replicate (unat T - 1 - 1) []"
      by (simp add: replicate_pos)
    ultimately show ?thesis using False h rest ds d by simp
  qed
qed

text \<open>
  C1. Let the deliveries \<open>ds\<close> be the \<open>T\<close> messages of a job in order, \<open>T\<close> at least 1:
  the message at position \<open>i\<close> decodes to a message with count \<open>i\<close> and total \<open>T\<close>.
  From the counter 0 the handler returns on each of them, the first \<open>T - 1\<close> invocations
  publish nothing, and the last one, on the message with count \<open>T - 1\<close>, publishes one
  \<open>"received"\<close> metric, with the count \<open>T\<close> and the clock of that delivery.
\<close>

theorem completion_detected:
  fixes T :: uint64
  assumes "T \<noteq> 0"
    and "length ds = unat T"
    and "\<forall>i<unat T. \<exists>m. decode W config (snd (ds ! i)) = Continue m
               \<and> message_count m = Return (of_nat i) \<and> message_total m = Return T"
  shows "deliver W config ds 0 =
     \<lparr>ending = Returned, final_counter = T,
      metrics = replicate (unat T - 1) [] @
        [[(Subject config @ ''.metric'',
           \<lparr>Job = ''received'', Time = fst (last ds), metric.Count = T\<rparr>)]]\<rparr>"
  using deliver_job [OF assms] by (simp add: received_metric_def)

theorem completion_detected_witness:
  "(2 :: uint64) \<noteq> 0
   \<and> length [(1 :: timestamp, plain_message 0 2), (2, plain_message 1 2)] = unat (2 :: uint64)
   \<and> decode idle_world test_config (plain_message 0 2) = Continue (ByteMessage (plain_body 0 2))
   \<and> message_count (ByteMessage (plain_body 0 2) :: unit message) = Return 0
   \<and> message_total (ByteMessage (plain_body 0 2) :: unit message) = Return 2
   \<and> decode idle_world test_config (plain_message 1 2) = Continue (ByteMessage (plain_body 1 2))
   \<and> message_count (ByteMessage (plain_body 1 2) :: unit message) = Return 1
   \<and> message_total (ByteMessage (plain_body 1 2) :: unit message) = Return 2
   \<and> deliver idle_world test_config [(1, plain_message 0 2), (2, plain_message 1 2)] 0
       = \<lparr>ending = Returned, final_counter = 2,
          metrics = [[], [(''speedtestnats.metric'',
                           \<lparr>Job = ''received'', Time = 2, metric.Count = 2\<rparr>)]]\<rparr>"
proof -
  let ?ds = "[(1 :: timestamp, plain_message 0 2), (2, plain_message 1 2)]"
  have a: "(2 :: uint64) \<noteq> 0" by simp
  have b: "length ?ds = unat (2 :: uint64)" by simp
  have d0: "decode idle_world test_config (plain_message 0 2) = Continue (ByteMessage (plain_body 0 2))
      \<and> message_count (ByteMessage (plain_body 0 2) :: unit message) = Return 0
      \<and> message_total (ByteMessage (plain_body 0 2) :: unit message) = Return 2"
    by code_simp
  have d1: "decode idle_world test_config (plain_message 1 2) = Continue (ByteMessage (plain_body 1 2))
      \<and> message_count (ByteMessage (plain_body 1 2) :: unit message) = Return 1
      \<and> message_total (ByteMessage (plain_body 1 2) :: unit message) = Return 2"
    by code_simp
  have c: "\<forall>i<unat (2 :: uint64). \<exists>m. decode idle_world test_config (snd (?ds ! i)) = Continue m
         \<and> message_count m = Return (of_nat i) \<and> message_total m = Return 2"
  proof (intro allI impI)
    fix i assume "i < unat (2 :: uint64)"
    then have "i = 0 \<or> i = 1" by auto
    then show "\<exists>m. decode idle_world test_config (snd (?ds ! i)) = Continue m
         \<and> message_count m = Return (of_nat i) \<and> message_total m = Return 2"
      using d0 d1 by auto
  qed
  show ?thesis
    using completion_detected [OF a b c] a b d0 d1
    by (simp add: test_config_def)
qed

lemma unat_succ_le: "unat ((x :: uint64) + 1) \<le> unat x + 1"
  by (simp add: unat_word_ariths)

lemma deliver_short:
  fixes T :: uint64
  assumes "\<forall>d\<in>set ds. \<exists>m c. decode W config (snd d) = Continue m
             \<and> message_total m = Return T \<and> message_count m = Return c"
    and "unat rc + length ds < unat T"
  shows "ending (deliver W config ds rc) = Returned
       \<and> metrics (deliver W config ds rc) = replicate (length ds) []"
  using assms
proof (induction ds arbitrary: rc)
  case Nil
  then show ?case by simp
next
  case (Cons d rest)
  obtain now data where d: "d = (now, data)" by (cases d)
  from Cons.prems(1) d obtain m c where m: "decode W config data = Continue m"
    "message_total m = Return T" "message_count m = Return c"
    by force
  from Cons.prems(2) have T0: "T \<noteq> 0" by auto
  then have last: "unat (T - 1) = unat T - 1" by (simp add: unat_minus_one)
  let ?rc = "if c = 0 then 0 else rc"
  have le: "unat ?rc \<le> unat rc" by simp
  with Cons.prems(2) have "unat ?rc \<noteq> unat (T - 1)" using last by simp
  then have ne: "?rc \<noteq> T - 1" by auto
  have h: "handler W config now data rc =
     \<lparr>outcome = Returned, counter = ?rc + 1, published = []\<rparr>"
    using handler_decoded [OF m(1) m(2) T0 m(3), of now rc] ne by simp
  have "unat (?rc + 1) + length rest < unat T"
    using unat_succ_le [of ?rc] le Cons.prems(2) by simp
  moreover have "\<forall>d\<in>set rest. \<exists>m c. decode W config (snd d) = Continue m
             \<and> message_total m = Return T \<and> message_count m = Return c"
    using Cons.prems(1) by simp
  ultimately have "ending (deliver W config rest (?rc + 1)) = Returned
       \<and> metrics (deliver W config rest (?rc + 1)) = replicate (length rest) []"
    using Cons.IH [of "?rc + 1"] by blast
  with h d show ?case by simp
qed

text \<open>
  C5. Let \<open>T\<close> be at least 2 and let \<open>ds\<close> be \<open>T - 1\<close> deliveries that each decode to a
  message with total \<open>T\<close>, with any counts and in any order: the messages of a job with one
  of them missing are such deliveries, whether the message with count \<open>T - 1\<close> is among them
  or not. From the counter 0 the handler returns on each of them and no invocation publishes
  a metric.
\<close>

theorem loss_gives_no_metric:
  fixes T :: uint64
  assumes "2 \<le> unat T"
    and "length ds = unat T - 1"
    and "\<forall>d\<in>set ds. \<exists>m c. decode W config (snd d) = Continue m
             \<and> message_total m = Return T \<and> message_count m = Return c"
  shows "ending (deliver W config ds 0) = Returned
       \<and> metrics (deliver W config ds 0) = replicate (unat T - 1) []"
proof -
  from assms(1,2) have "unat (0 :: uint64) + length ds < unat T" by simp
  from deliver_short [OF assms(3) this] assms(2) show ?thesis by simp
qed

theorem loss_gives_no_metric_witness:
  "2 \<le> unat (3 :: uint64)
   \<and> length [(1 :: timestamp, plain_message 0 3), (2, plain_message 2 3)] = unat (3 :: uint64) - 1
   \<and> decode idle_world test_config (plain_message 0 3) = Continue (ByteMessage (plain_body 0 3))
   \<and> message_total (ByteMessage (plain_body 0 3) :: unit message) = Return 3
   \<and> message_count (ByteMessage (plain_body 0 3) :: unit message) = Return 0
   \<and> decode idle_world test_config (plain_message 2 3) = Continue (ByteMessage (plain_body 2 3))
   \<and> message_total (ByteMessage (plain_body 2 3) :: unit message) = Return 3
   \<and> message_count (ByteMessage (plain_body 2 3) :: unit message) = Return 2
   \<and> ending (deliver idle_world test_config
         [(1, plain_message 0 3), (2, plain_message 2 3)] 0) = Returned
   \<and> metrics (deliver idle_world test_config
         [(1, plain_message 0 3), (2, plain_message 2 3)] 0) = [[], []]"
proof -
  let ?ds = "[(1 :: timestamp, plain_message 0 3), (2, plain_message 2 3)]"
  have a: "2 \<le> unat (3 :: uint64)" by simp
  have b: "length ?ds = unat (3 :: uint64) - 1" by simp
  have d0: "decode idle_world test_config (plain_message 0 3) = Continue (ByteMessage (plain_body 0 3))
      \<and> message_total (ByteMessage (plain_body 0 3) :: unit message) = Return 3
      \<and> message_count (ByteMessage (plain_body 0 3) :: unit message) = Return 0"
    by code_simp
  have d2: "decode idle_world test_config (plain_message 2 3) = Continue (ByteMessage (plain_body 2 3))
      \<and> message_total (ByteMessage (plain_body 2 3) :: unit message) = Return 3
      \<and> message_count (ByteMessage (plain_body 2 3) :: unit message) = Return 2"
    by code_simp
  have c: "\<forall>d\<in>set ?ds. \<exists>m c. decode idle_world test_config (snd d) = Continue m
           \<and> message_total m = Return 3 \<and> message_count m = Return c"
    using d0 d2 by auto
  have "unat (3 :: uint64) - 1 = Suc (Suc 0)" by simp
  then have r: "replicate (unat (3 :: uint64) - 1) ([] :: (string \<times> metric) list) = [[], []]"
    by (simp only: replicate.simps)
  have "ending (deliver idle_world test_config ?ds 0) = Returned
       \<and> metrics (deliver idle_world test_config ?ds 0) = replicate (unat (3 :: uint64) - 1) []"
    using loss_gives_no_metric [OF a b c] .
  then have "ending (deliver idle_world test_config ?ds 0) = Returned
       \<and> metrics (deliver idle_world test_config ?ds 0) = [[], []]"
    unfolding r .
  with a b d0 d2 show ?thesis by blast
qed

end
